theory Spec2Isabelle
  imports Complex_Main
begin

section \<open>The 3D viewer of BioSynth-Designer\<close>

text \<open>
  The component \<^verbatim>\<open>ThreeDViewer\<close> keeps a three.js scene in \<^verbatim>\<open>sceneRef\<close> and rebuilds its
  content in an effect that runs when the \<^verbatim>\<open>type\<close> property changes. The coordinates of
  the organoid cells are modelled as the IEEE-754 doubles the code stores: every product
  is rounded, and \<^verbatim>\<open>Math.sin\<close>, \<^verbatim>\<open>Math.cos\<close> and \<^verbatim>\<open>Math.random\<close> are those of the engine
  that runs the code. The other numbers (the helix coordinates, sizes, intensities) are
  exact reals: the properties stated of them are counts and equalities between two runs
  of the same expression. The one division whose divisor can be zero, the aspect ratio,
  is modelled with its JavaScript special values.
\<close>

subsection \<open>Data model\<close>

datatype vec3 = Vec3 (vx: real) (vy: real) (vz: real)

text \<open>\<^verbatim>\<open>Vector3.normalize()\<close> divides by the length, or by 1 when the length is 0.\<close>

definition vec_length :: "vec3 \<Rightarrow> real" where
  "vec_length v = sqrt (vx v * vx v + vy v * vy v + vz v * vz v)"

definition normalize :: "vec3 \<Rightarrow> vec3" where
  "normalize v =
     (let l = (if vec_length v = 0 then 1 else vec_length v)
      in Vec3 (vx v / l) (vy v / l) (vz v / l))"

text \<open>
  A geometry or a material is a GPU resource: it has an identity (the number of the
  allocation that created it) and the constructor arguments it was created with.
\<close>

datatype geometry_kind =
    CylinderGeometry real real real nat
  | SphereGeometry real nat nat

datatype material_kind =
    MeshPhongMaterial (color: nat) (shininess: nat) (transparent: bool) (opacity: real)

datatype geometry = Geometry (gid: nat) (gkind: geometry_kind)

datatype material = Material (mid: nat) (mkind: material_kind)

text \<open>The \<^verbatim>\<open>material\<close> field of a mesh is one material or an array of materials.\<close>

datatype mesh_material = Single material | Multi "material list"

datatype object3d =
    AmbientLight nat real
  | DirectionalLight nat real vec3
  | Mesh (geometry: geometry) (mesh_mat: mesh_material) (position: vec3) (rotation_z: real)

fun isMesh :: "object3d \<Rightarrow> bool" where
  "isMesh (Mesh g m p r) = True"
| "isMesh _ = False"

text \<open>
  The state the type effect works on: the children of the scene, the number of resources
  allocated so far (the next resource identity), the log of \<^verbatim>\<open>dispose()\<close> calls by resource
  identity, and the number of calls of \<^verbatim>\<open>Math.random()\<close> that the type effect itself has
  made so far. This is not the position of the global generator: three.js draws from the
  same generator for the identifier of every object, geometry and material it constructs,
  in between the calls of the effect, and those draws are not counted here.
\<close>

record world =
  children :: "object3d list"
  next_id :: nat
  disposed :: "nat list"
  rand_count :: nat

subsection \<open>JavaScript numbers of the cell coordinates\<close>

text \<open>
  A double is a real of the form \<open>m * 2 ^ e\<close> with \<open>\<bar>m\<bar> < 2 ^ 53\<close> and \<open>e \<ge> - 1074\<close>; \<open>fl x\<close>
  is the double nearest to \<open>x\<close>, the even one of two that are equally near (the rounding
  of IEEE-754 arithmetic, subnormal numbers included). Overflow to an infinity is not
  modelled: every number rounded here has magnitude below 8.
\<close>

definition round_half_even :: "real \<Rightarrow> int" where
  "round_half_even y =
     (let f = \<lfloor>y\<rfloor>
      in if y - of_int f < 1 / 2 then f
         else if 1 / 2 < y - of_int f then f + 1
         else if even f then f else f + 1)"

definition fl :: "real \<Rightarrow> real" where
  "fl x =
     (if x = 0 then 0
      else let e = max \<lfloor>log 2 \<bar>x\<bar>\<rfloor> (- 1022);
               q = 2 powr (of_int e - 52)
           in of_int (round_half_even (x / q)) * q)"

text \<open>The product of two doubles, as \<^verbatim>\<open>*\<close> computes it.\<close>

definition fmul :: "real \<Rightarrow> real \<Rightarrow> real" where
  "fmul x y = fl (x * y)"

text \<open>The value of \<^verbatim>\<open>Math.PI\<close>, the double nearest to \<open>pi\<close>.\<close>

definition Math_PI :: real where
  "Math_PI = 884279719003555 / 2 ^ 48"

text \<open>
  What the JavaScript engine supplies: \<open>random js k\<close> is the value that the \<open>k\<close>-th call of
  \<^verbatim>\<open>Math.random()\<close> made by the type effect returns, and \<open>Math_sin js\<close>, \<open>Math_cos js\<close> are
  its \<^verbatim>\<open>Math.sin\<close> and \<^verbatim>\<open>Math.cos\<close>, which the language leaves to the implementation.
\<close>

record engine =
  random :: "nat \<Rightarrow> real"
  Math_sin :: "real \<Rightarrow> real"
  Math_cos :: "real \<Rightarrow> real"

subsection \<open>Primitive operations\<close>

definition scene_add :: "object3d \<Rightarrow> world \<Rightarrow> world" where
  "scene_add object w = w\<lparr>children := children w @ [object]\<rparr>"

definition new_geometry :: "geometry_kind \<Rightarrow> world \<Rightarrow> geometry \<times> world" where
  "new_geometry k w = (Geometry (next_id w) k, w\<lparr>next_id := Suc (next_id w)\<rparr>)"

definition new_material :: "material_kind \<Rightarrow> world \<Rightarrow> material \<times> world" where
  "new_material k w = (Material (next_id w) k, w\<lparr>next_id := Suc (next_id w)\<rparr>)"

definition dispose :: "nat \<Rightarrow> world \<Rightarrow> world" where
  "dispose r w = w\<lparr>disposed := disposed w @ [r]\<rparr>"

definition math_random :: "engine \<Rightarrow> world \<Rightarrow> real \<times> world" where
  "math_random js w = (random js (rand_count w), w\<lparr>rand_count := Suc (rand_count w)\<rparr>)"

subsection \<open>Clearing the scene\<close>

text \<open>
  One pass of the body of the clearing loop on \<open>object\<close>: a mesh has its geometry disposed,
  then its material when it is a single material, or every element when it is an array.
  Lights are not meshes and nothing of theirs is disposed.
\<close>

definition dispose_object :: "object3d \<Rightarrow> world \<Rightarrow> world" where
  "dispose_object object w =
     (if isMesh object then
        let w1 = dispose (gid (geometry object)) w
        in (case mesh_mat object of
              Single m \<Rightarrow> dispose (mid m) w1
            | Multi ms \<Rightarrow> foldl (\<lambda>w' m. dispose (mid m) w') w1 ms)
      else w)"

text \<open>
  \<^verbatim>\<open>while (children.length > 0) { object = children[0]; ...; scene.remove(object) }\<close>.
  The object removed is the first child, so \<^verbatim>\<open>remove\<close> leaves the tail of the children;
  disposing does not touch them.
\<close>

function clear_loop :: "world \<Rightarrow> world" where
  "clear_loop w =
     (if length (children w) > 0 then
        let object = hd (children w);
            w1 = dispose_object object w
        in clear_loop (w1\<lparr>children := tl (children w)\<rparr>)
      else w)"
  by pat_completeness auto
termination
  by (relation "measure (\<lambda>w. length (children w))") auto

declare clear_loop.simps [simp del]

definition ambientLight :: object3d where
  "ambientLight = AmbientLight 0xffffff 0.6"

definition directionalLight :: object3d where
  "directionalLight = DirectionalLight 0xffffff 0.8 (normalize (Vec3 0 10 5))"

definition add_lighting :: "world \<Rightarrow> world" where
  "add_lighting w = scene_add directionalLight (scene_add ambientLight w)"

subsection \<open>The helix of the \<^verbatim>\<open>dna\<close> branch\<close>

text \<open>
  The loop \<^verbatim>\<open>for (let i = 0; i <= numSegments; i++)\<close>. The two backbone cylinders of one
  pass share one geometry, every backbone cylinder shares \<open>material\<close>, and every base
  pair shares \<open>baseMaterial\<close>. A mesh is created at the origin with rotation 0. The
  source also computes \<open>angle2\<close> and never reads it. For \<open>numSegments = 0\<close> JavaScript
  gives the angle \<^verbatim>\<open>0/0 = NaN\<close>, which a real cannot hold; the coordinates of the model
  are those of the source for \<open>numSegments \<ge> 1\<close>.
\<close>

function helix_loop ::
  "real \<Rightarrow> real \<Rightarrow> nat \<Rightarrow> real \<Rightarrow> material \<Rightarrow> material \<Rightarrow> nat \<Rightarrow> world \<Rightarrow> world" where
  "helix_loop radius height numSegments segmentHeight material baseMaterial i w =
     (if i \<le> numSegments then
        let angle1 = (real i / real numSegments) * pi * 8;
            (cylinderGeometry, w1) =
               new_geometry (CylinderGeometry 0.05 0.05 (segmentHeight + 0.1) 8) w;
            cylinder1 = Mesh cylinderGeometry (Single material)
               (Vec3 (radius * cos angle1) (radius * sin angle1)
                     (real i * segmentHeight - height / 2)) 0;
            w2 = scene_add cylinder1 w1;
            cylinder2 = Mesh cylinderGeometry (Single material)
               (Vec3 (radius * cos (angle1 + pi)) (radius * sin (angle1 + pi))
                     (real i * segmentHeight - height / 2)) 0;
            w3 = scene_add cylinder2 w2;
            w4 = (if i < numSegments then
                    let (basePairGeometry, w') =
                           new_geometry (CylinderGeometry 0.03 0.03 (radius * 2) 8) w3;
                        basePair = Mesh basePairGeometry (Single baseMaterial)
                           (Vec3 0 0 ((real i + 0.5) * segmentHeight - height / 2))
                           (angle1 + pi / 2)
                    in scene_add basePair w'
                  else w3)
        in helix_loop radius height numSegments segmentHeight material baseMaterial (i + 1) w4
      else w)"
  by pat_completeness auto
termination
  by (relation "measure (\<lambda>(radius, height, numSegments, segmentHeight, material,
        baseMaterial, i, w). Suc numSegments - i)") auto

declare helix_loop.simps [simp del]

text \<open>
  The \<^verbatim>\<open>dna\<close> branch (the helix builder) with its three local constants as parameters;
  the source fixes \<open>radius = 1\<close>, \<open>height = 4\<close> and \<open>numSegments = 30\<close>.
\<close>

definition buildHelix :: "real \<Rightarrow> real \<Rightarrow> nat \<Rightarrow> world \<Rightarrow> world" where
  "buildHelix radius height numSegments w =
     (let (material, w1) = new_material (MeshPhongMaterial 0x007bff 80 False 1) w;
          (baseMaterial, w2) = new_material (MeshPhongMaterial 0x800080 80 False 1) w1;
          segmentHeight = height / real numSegments;
          w3 = helix_loop radius height numSegments segmentHeight material baseMaterial 0 w2;
          (coreGeometry, w4) = new_geometry (SphereGeometry 0.3 32 32) w3;
          (coreMaterial, w5) = new_material (MeshPhongMaterial 0xffa500 100 False 1) w4;
          core = Mesh coreGeometry (Single coreMaterial) (Vec3 0 0 (- height / 2)) 0
      in scene_add core w5)"

subsection \<open>The layered spheres of the \<^verbatim>\<open>organoid\<close> branch\<close>

text \<open>
  The loop \<^verbatim>\<open>for (let i = 0; i < 50; i++)\<close>, with the bound as a parameter. Each pass
  calls \<^verbatim>\<open>Math.random()\<close> three times, for \<open>phi\<close>, \<open>theta\<close> and \<open>r\<close> in this order, and
  stores three doubles in the position of the cell. The literal \<^verbatim>\<open>0.8\<close> is the double
  nearest to 0.8; the products associate to the left, as in the source.
\<close>

function organoid_loop ::
  "engine \<Rightarrow> nat \<Rightarrow> geometry \<Rightarrow> material \<Rightarrow> nat \<Rightarrow> world \<Rightarrow> world" where
  "organoid_loop js cellCount cellsGeometry cellMaterial i w =
     (if i < cellCount then
        let (u1, w1) = math_random js w;
            phi = fmul (fmul u1 Math_PI) 2;
            (u2, w2) = math_random js w1;
            theta = fmul u2 Math_PI;
            (u3, w3) = math_random js w2;
            r = fmul u3 (fl 0.8);
            cell = Mesh cellsGeometry (Single cellMaterial)
               (Vec3 (fmul (fmul r (Math_sin js theta)) (Math_cos js phi))
                     (fmul (fmul r (Math_sin js theta)) (Math_sin js phi))
                     (fmul r (Math_cos js theta))) 0
        in organoid_loop js cellCount cellsGeometry cellMaterial (i + 1) (scene_add cell w3)
      else w)"
  by pat_completeness auto
termination
  by (relation "measure (\<lambda>(js, cellCount, cellsGeometry, cellMaterial, i, w).
        cellCount - i)") auto

declare organoid_loop.simps [simp del]

definition buildOrganoid :: "engine \<Rightarrow> nat \<Rightarrow> world \<Rightarrow> world" where
  "buildOrganoid js cellCount w =
     (let (coreGeometry, w1) = new_geometry (SphereGeometry 1.0 32 32) w;
          (coreMaterial, w2) = new_material (MeshPhongMaterial 0xff6347 50 True 0.8) w1;
          core = Mesh coreGeometry (Single coreMaterial) (Vec3 0 0 0) 0;
          w3 = scene_add core w2;
          (outerLayerGeometry, w4) = new_geometry (SphereGeometry 1.2 32 32) w3;
          (outerLayerMaterial, w5) =
             new_material (MeshPhongMaterial 0x4682b4 50 True 0.6) w4;
          outerLayer = Mesh outerLayerGeometry (Single outerLayerMaterial) (Vec3 0 0 0) 0;
          w6 = scene_add outerLayer w5;
          (cellsGeometry, w7) = new_geometry (SphereGeometry 0.1 16 16) w6;
          (cellMaterial, w8) = new_material (MeshPhongMaterial 0x90ee90 30 False 1) w7
      in organoid_loop js cellCount cellsGeometry cellMaterial 0 w8)"

subsection \<open>The type effect\<close>

text \<open>
  The body of the effect for a scene that exists (one structure-type switch): clear,
  re-add the lighting, then build the content for \<open>type\<close>. No branch is taken for any
  other value of \<open>type\<close>.
\<close>

definition setStructureType :: "engine \<Rightarrow> string \<Rightarrow> world \<Rightarrow> world" where
  "setStructureType js type w =
     (let w1 = add_lighting (clear_loop w)
      in if type = ''dna'' then buildHelix 1 4 30 w1
         else if type = ''organoid'' then buildOrganoid js 50 w1
         else w1)"

text \<open>
  The effect itself: both parts are guarded by \<^verbatim>\<open>if (sceneRef.current)\<close>, so nothing
  happens while there is no scene (\<open>None\<close>).
\<close>

definition type_effect :: "engine \<Rightarrow> string \<Rightarrow> world option \<Rightarrow> world option" where
  "type_effect js type sceneRef =
     (case sceneRef of None \<Rightarrow> None | Some w \<Rightarrow> Some (setStructureType js type w))"

text \<open>The scene the mount effect leaves: the two lights, nothing allocated or disposed.\<close>

definition mounted :: world where
  "mounted = add_lighting \<lparr>children = [], next_id = 0, disposed = [], rand_count = 0\<rparr>"

text \<open>A sequence of switches, first to last.\<close>

definition switches :: "engine \<Rightarrow> string list \<Rightarrow> world \<Rightarrow> world" where
  "switches js types w = foldl (\<lambda>w' type. setStructureType js type w') w types"

subsection \<open>Resizing\<close>

text \<open>
  The quotient \<^verbatim>\<open>clientWidth / clientHeight\<close> of two integers as JavaScript computes it:
  a division by zero does not raise, it gives \<^verbatim>\<open>NaN\<close> or an infinity.
\<close>

datatype jsnum = Finite real | NaN | Infinity | NegInfinity

definition js_div :: "int \<Rightarrow> int \<Rightarrow> jsnum" where
  "js_div a b =
     (if b \<noteq> 0 then Finite (real_of_int a / real_of_int b)
      else if a = 0 then NaN
      else if a > 0 then Infinity
      else NegInfinity)"

record camera =
  aspect :: jsnum

record renderer =
  size :: "int \<times> int"

text \<open>
  The mount element with its client size, and the two references the resize handler
  reads; a reference is \<open>None\<close> while it is \<^verbatim>\<open>null\<close>.
\<close>

record viewport =
  clientWidth :: int
  clientHeight :: int
  cameraRef :: "camera option"
  rendererRef :: "renderer option"

definition onWindowResize :: "viewport \<Rightarrow> viewport" where
  "onWindowResize v =
     (case (cameraRef v, rendererRef v) of
        (Some cam, Some ren) \<Rightarrow>
          v\<lparr>cameraRef := Some (cam\<lparr>aspect := js_div (clientWidth v) (clientHeight v)\<rparr>),
            rendererRef := Some (ren\<lparr>size := (clientWidth v, clientHeight v)\<rparr>)\<rparr>
      | _ \<Rightarrow> v)"

text \<open>The mount element takes a new client size and the window fires \<^verbatim>\<open>resize\<close>.\<close>

definition resize :: "int \<Rightarrow> int \<Rightarrow> viewport \<Rightarrow> viewport" where
  "resize newWidth newHeight v =
     onWindowResize (v\<lparr>clientWidth := newWidth, clientHeight := newHeight\<rparr>)"

text \<open>The viewport the mount effect creates for a mount element of the given size.\<close>

definition initialize :: "int \<Rightarrow> int \<Rightarrow> viewport" where
  "initialize initialWidth initialHeight =
     \<lparr>clientWidth = initialWidth, clientHeight = initialHeight,
      cameraRef = Some \<lparr>aspect = js_div initialWidth initialHeight\<rparr>,
      rendererRef = Some \<lparr>size = (initialWidth, initialHeight)\<rparr>\<rparr>"

subsection \<open>Notions the properties are stated with\<close>

text \<open>
  The \<^verbatim>\<open>dispose()\<close> calls that removing an object makes, in call order: for a mesh its
  geometry, then its material or every element of its material array.
\<close>

fun disposals :: "object3d \<Rightarrow> nat list" where
  "disposals (Mesh g (Single m) p r) = [gid g, mid m]"
| "disposals (Mesh g (Multi ms) p r) = gid g # map mid ms"
| "disposals _ = []"

text \<open>The content nodes of a scene are its meshes.\<close>

definition content :: "world \<Rightarrow> object3d list" where
  "content w = filter isMesh (children w)"

text \<open>A mesh whose single material has the given colour.\<close>

fun has_color :: "nat \<Rightarrow> object3d \<Rightarrow> bool" where
  "has_color c (Mesh g (Single m) p r) = (color (mkind m) = c)"
| "has_color c _ = False"

text \<open>
  An object without the identities of its resources: what it is made of and where it is.
\<close>

fun erase_material :: "material \<Rightarrow> material" where
  "erase_material (Material i k) = Material 0 k"

fun erase_ids :: "object3d \<Rightarrow> object3d" where
  "erase_ids (Mesh (Geometry i k) (Single m) p r) =
     Mesh (Geometry 0 k) (Single (erase_material m)) p r"
| "erase_ids (Mesh (Geometry i k) (Multi ms) p r) =
     Mesh (Geometry 0 k) (Multi (map erase_material ms)) p r"
| "erase_ids l = l"

text \<open>The number of content nodes the branch for a type builds.\<close>

definition nodes_built :: "string \<Rightarrow> nat" where
  "nodes_built type =
     (if type = ''dna'' then 93 else if type = ''organoid'' then 52 else 0)"

text \<open>The position of the cell that three successive random draws give.\<close>

definition cell_position :: "engine \<Rightarrow> real \<Rightarrow> real \<Rightarrow> real \<Rightarrow> vec3" where
  "cell_position js u1 u2 u3 =
     (let phi = fmul (fmul u1 Math_PI) 2;
          theta = fmul u2 Math_PI;
          r = fmul u3 (fl 0.8)
      in Vec3 (fmul (fmul r (Math_sin js theta)) (Math_cos js phi))
              (fmul (fmul r (Math_sin js theta)) (Math_sin js phi))
              (fmul r (Math_cos js theta)))"

text \<open>
  An engine whose sine and cosine are correctly rounded: the double nearest to the exact
  value.
\<close>

definition correctly_rounded :: "(nat \<Rightarrow> real) \<Rightarrow> engine" where
  "correctly_rounded draws =
     \<lparr>random = draws, Math_sin = (\<lambda>t. fl (sin t)), Math_cos = (\<lambda>t. fl (cos t))\<rparr>"

text \<open>
  Draws whose second and third values are \<open>195 / 1024\<close> and \<open>1 - 2 ^ -53\<close>, the largest
  double below 1; all others are 0.
\<close>

definition example_draws :: "nat \<Rightarrow> real" where
  "example_draws k = (if k = 1 then 195 / 1024 else if k = 2 then 1 - 1 / 2 ^ 53 else 0)"


section \<open>What the loops and the builders compute\<close>

lemma foldl_dispose:
  "foldl (\<lambda>w' m. dispose (mid m) w') w ms = w\<lparr>disposed := disposed w @ map mid ms\<rparr>"
  by (induction ms arbitrary: w) (simp_all add: dispose_def)

lemma dispose_object_eq:
  "dispose_object object w = w\<lparr>disposed := disposed w @ disposals object\<rparr>"
proof (cases object rule: disposals.cases)
  case (2 g ms p r)
  then show ?thesis
    by (simp add: dispose_object_def foldl_dispose) (simp add: dispose_def)
qed (simp_all add: dispose_object_def dispose_def)

lemma clear_loop_eq:
  "clear_loop w = w\<lparr>children := [], disposed := disposed w @ concat (map disposals (children w))\<rparr>"
proof (induction w rule: clear_loop.induct)
  case (1 w)
  show ?case
  proof (cases "children w")
    case Nil
    then show ?thesis by (subst clear_loop.simps) simp
  next
    case (Cons object rest)
    then show ?thesis
      using "1.IH"[OF _ refl refl]
      by (subst clear_loop.simps) (simp add: dispose_object_eq)
  qed
qed

lemma helix_loop_done:
  "n < i \<Longrightarrow> helix_loop r h n sh m bm i w = w"
  by (subst helix_loop.simps) simp

lemma helix_loop_last:
  "helix_loop r h n sh m bm n w =
     w\<lparr>next_id := Suc (next_id w),
       children := children w @
         [Mesh (Geometry (next_id w) (CylinderGeometry 0.05 0.05 (sh + 0.1) 8)) (Single m)
            (Vec3 (r * cos (real n / real n * pi * 8)) (r * sin (real n / real n * pi * 8))
               (real n * sh - h / 2)) 0,
          Mesh (Geometry (next_id w) (CylinderGeometry 0.05 0.05 (sh + 0.1) 8)) (Single m)
            (Vec3 (r * cos (real n / real n * pi * 8 + pi)) (r * sin (real n / real n * pi * 8 + pi))
               (real n * sh - h / 2)) 0]\<rparr>"
  by (subst helix_loop.simps)
     (simp add: new_geometry_def scene_add_def Let_def helix_loop_done)

lemma helix_loop_step:
  "i < n \<Longrightarrow> helix_loop r h n sh m bm i w =
     helix_loop r h n sh m bm (Suc i)
      (w\<lparr>next_id := Suc (Suc (next_id w)),
         children := children w @
         [Mesh (Geometry (next_id w) (CylinderGeometry 0.05 0.05 (sh + 0.1) 8)) (Single m)
            (Vec3 (r * cos (real i / real n * pi * 8)) (r * sin (real i / real n * pi * 8))
               (real i * sh - h / 2)) 0,
          Mesh (Geometry (next_id w) (CylinderGeometry 0.05 0.05 (sh + 0.1) 8)) (Single m)
            (Vec3 (r * cos (real i / real n * pi * 8 + pi)) (r * sin (real i / real n * pi * 8 + pi))
               (real i * sh - h / 2)) 0,
          Mesh (Geometry (Suc (next_id w)) (CylinderGeometry 0.03 0.03 (r * 2) 8)) (Single bm)
            (Vec3 0 0 ((real i + 0.5) * sh - h / 2)) (real i / real n * pi * 8 + pi / 2)]\<rparr>)"
  by (subst helix_loop.simps)
     (simp add: new_geometry_def scene_add_def Let_def)

lemma helix_loop_fields:
  "i \<le> n \<Longrightarrow>
     disposed (helix_loop r h n sh m bm i w) = disposed w \<and>
     rand_count (helix_loop r h n sh m bm i w) = rand_count w \<and>
     next_id (helix_loop r h n sh m bm i w) = next_id w + 2 * (n - i) + 1"
proof (induction "n - i" arbitrary: i w)
  case 0
  then have "i = n" by simp
  then show ?case by (simp add: helix_loop_last)
next
  case (Suc k)
  then have lt: "i < n" and k: "k = n - Suc i" and le: "Suc i \<le> n" by simp_all
  show ?case
    using Suc.hyps(1)[OF k le] lt by (simp add: helix_loop_step[OF lt])
qed

lemma helix_loop_sum:
  fixes f :: "object3d \<Rightarrow> nat"
  assumes a: "\<And>g p t. f (Mesh g (Single m) p t) = a"
      and b: "\<And>g p t. f (Mesh g (Single bm) p t) = b"
  shows "i \<le> n \<Longrightarrow>
     sum_list (map f (children (helix_loop r h n sh m bm i w))) =
       sum_list (map f (children w)) + 2 * (n - i + 1) * a + (n - i) * b"
proof (induction "n - i" arbitrary: i w)
  case 0
  then have "i = n" by simp
  then show ?case by (simp add: helix_loop_last a)
next
  case (Suc k)
  then have lt: "i < n" and k: "k = n - Suc i" and le: "Suc i \<le> n" by simp_all
  have "n - i = Suc (n - Suc i)" using lt by simp
  then show ?case
    using Suc.hyps(1)[OF k le] by (simp add: helix_loop_step[OF lt] a b algebra_simps)
qed

lemma length_as_sum: "length xs = sum_list (map (\<lambda>x. 1) xs)"
  by (induction xs) simp_all

lemma count_as_sum: "length (filter P xs) = sum_list (map (\<lambda>x. if P x then 1 else 0) xs)"
  by (induction xs) simp_all

lemma length_concat_as_sum: "length (concat (map g xs)) = sum_list (map (\<lambda>x. length (g x)) xs)"
  by (induction xs) simp_all

lemma helix_loop_erase:
  assumes "mkind m = mkind m'" "mkind bm = mkind bm'"
  shows "i \<le> n \<Longrightarrow> map erase_ids (children w) = map erase_ids (children w') \<Longrightarrow>
     map erase_ids (children (helix_loop r h n sh m bm i w)) =
     map erase_ids (children (helix_loop r h n sh m' bm' i w'))"
proof (induction "n - i" arbitrary: i w w')
  case 0
  then have "i = n" by simp
  with 0 assms show ?case
    by (cases m; cases m'; cases bm; cases bm') (simp add: helix_loop_last)
next
  case (Suc k)
  then have lt: "i < n" and k: "k = n - Suc i" and le: "Suc i \<le> n" by simp_all
  show ?case
    unfolding helix_loop_step[OF lt]
    apply (rule Suc.hyps(1)[OF k le])
    using Suc.prems(2) assms
    by (cases m; cases m'; cases bm; cases bm') simp
qed

lemma helix_loop_append:
  "i \<le> n \<Longrightarrow>
     \<exists>ns. children (helix_loop r h n sh m bm i w) = children w @ ns \<and> list_all isMesh ns"
proof (induction "n - i" arbitrary: i w)
  case 0
  then have "i = n" by simp
  then show ?case by (simp add: helix_loop_last)
next
  case (Suc k)
  then have lt: "i < n" and k: "k = n - Suc i" and le: "Suc i \<le> n" by simp_all
  show ?case
    unfolding helix_loop_step[OF lt]
    using Suc.hyps(1)[OF k le, of "w\<lparr>next_id := Suc (Suc (next_id w)),
         children := children w @
         [Mesh (Geometry (next_id w) (CylinderGeometry 0.05 0.05 (sh + 0.1) 8)) (Single m)
            (Vec3 (r * cos (real i / real n * pi * 8)) (r * sin (real i / real n * pi * 8))
               (real i * sh - h / 2)) 0,
          Mesh (Geometry (next_id w) (CylinderGeometry 0.05 0.05 (sh + 0.1) 8)) (Single m)
            (Vec3 (r * cos (real i / real n * pi * 8 + pi)) (r * sin (real i / real n * pi * 8 + pi))
               (real i * sh - h / 2)) 0,
          Mesh (Geometry (Suc (next_id w)) (CylinderGeometry 0.03 0.03 (r * 2) 8)) (Single bm)
            (Vec3 0 0 ((real i + 0.5) * sh - h / 2)) (real i / real n * pi * 8 + pi / 2)]\<rparr>"]
    by auto
qed

lemma helix_loop_cong:
  "i \<le> n \<Longrightarrow> children w = children w' \<Longrightarrow> next_id w = next_id w' \<Longrightarrow>
     children (helix_loop r h n sh m bm i w) = children (helix_loop r h n sh m bm i w')"
proof (induction "n - i" arbitrary: i w w')
  case 0
  then have "i = n" by simp
  with 0 show ?case by (simp add: helix_loop_last)
next
  case (Suc k)
  then have lt: "i < n" and k: "k = n - Suc i" and le: "Suc i \<le> n" by simp_all
  show ?case
    unfolding helix_loop_step[OF lt]
    by (rule Suc.hyps(1)[OF k le]) (simp_all add: Suc.prems)
qed

lemma buildHelix_unfold:
  "buildHelix r h n w =
     (let w3 = helix_loop r h n (h / real n)
                 (Material (next_id w) (MeshPhongMaterial 0x007bff 80 False 1))
                 (Material (Suc (next_id w)) (MeshPhongMaterial 0x800080 80 False 1)) 0
                 (w\<lparr>next_id := Suc (Suc (next_id w))\<rparr>)
      in w3\<lparr>next_id := Suc (Suc (next_id w3)),
            children := children w3 @
              [Mesh (Geometry (next_id w3) (SphereGeometry 0.3 32 32))
                 (Single (Material (Suc (next_id w3)) (MeshPhongMaterial 0xffa500 100 False 1)))
                 (Vec3 0 0 (- h / 2)) 0]\<rparr>)"
  by (simp add: buildHelix_def new_material_def new_geometry_def scene_add_def Let_def)

lemma buildHelix_fields:
  "disposed (buildHelix r h n w) = disposed w"
  "rand_count (buildHelix r h n w) = rand_count w"
  "next_id (buildHelix r h n w) = next_id w + 2 * n + 5"
  by (simp_all add: buildHelix_unfold Let_def helix_loop_fields)

lemma buildHelix_sum:
  fixes f :: "object3d \<Rightarrow> nat"
  assumes "\<And>g j p t. f (Mesh g (Single (Material j (MeshPhongMaterial 0x007bff 80 False 1))) p t) = a"
      and "\<And>g j p t. f (Mesh g (Single (Material j (MeshPhongMaterial 0x800080 80 False 1))) p t) = b"
      and "\<And>g j p t. f (Mesh g (Single (Material j (MeshPhongMaterial 0xffa500 100 False 1))) p t) = c"
  shows "sum_list (map f (children (buildHelix r h n w))) =
           sum_list (map f (children w)) + 2 * (n + 1) * a + n * b + c"
  by (simp add: buildHelix_unfold Let_def helix_loop_sum[where a=a and b=b] assms)

lemma buildHelix_erase:
  "map erase_ids (children w) = map erase_ids (children w') \<Longrightarrow>
     map erase_ids (children (buildHelix r h n w)) = map erase_ids (children (buildHelix r h n w'))"
  by (simp add: buildHelix_unfold Let_def helix_loop_erase)

lemma buildHelix_cong:
  "children w = children w' \<Longrightarrow> next_id w = next_id w' \<Longrightarrow>
     children (buildHelix r h n w) = children (buildHelix r h n w')"
  by (simp add: buildHelix_unfold Let_def helix_loop_fields
        helix_loop_cong[of 0 n "w\<lparr>next_id := Suc (Suc (next_id w'))\<rparr>" "w'\<lparr>next_id := Suc (Suc (next_id w'))\<rparr>"])

lemma buildHelix_append:
  "\<exists>ns. children (buildHelix r h n w) = children w @ ns \<and> list_all isMesh ns"
proof -
  obtain ns where "children (helix_loop r h n (h / real n)
                 (Material (next_id w) (MeshPhongMaterial 0x007bff 80 False 1))
                 (Material (Suc (next_id w)) (MeshPhongMaterial 0x800080 80 False 1)) 0
                 (w\<lparr>next_id := Suc (Suc (next_id w))\<rparr>)) = children w @ ns" "list_all isMesh ns"
    using helix_loop_append[of 0 n r h "h / real n" _ _ "w\<lparr>next_id := Suc (Suc (next_id w))\<rparr>"]
    by auto
  then show ?thesis by (simp add: buildHelix_unfold Let_def)
qed

lemma organoid_loop_done:
  "c \<le> i \<Longrightarrow> organoid_loop js c g m i w = w"
  by (subst organoid_loop.simps) simp

lemma organoid_loop_step:
  "i < c \<Longrightarrow> organoid_loop js c g m i w =
     organoid_loop js c g m (Suc i)
       (w\<lparr>rand_count := rand_count w + 3,
          children := children w @
            [Mesh g (Single m)
               (cell_position js (random js (rand_count w)) (random js (rand_count w + 1))
                  (random js (rand_count w + 2))) 0]\<rparr>)"
proof -
  have s3: "Suc (Suc (Suc (rand_count w))) = rand_count w + 3" by simp
  assume "i < c"
  then show ?thesis
    by (subst organoid_loop.simps)
       (simp add: math_random_def scene_add_def Let_def cell_position_def s3)
qed

lemma organoid_loop_eq:
  "i \<le> c \<Longrightarrow> organoid_loop js c g m i w =
     w\<lparr>rand_count := rand_count w + 3 * (c - i),
       children := children w @
         map (\<lambda>j. Mesh g (Single m)
                (cell_position js (random js (rand_count w + 3 * j)) (random js (rand_count w + 3 * j + 1))
                   (random js (rand_count w + 3 * j + 2))) 0) [0..<c - i]\<rparr>"
proof (induction "c - i" arbitrary: i w)
  case 0
  then show ?case by (simp add: organoid_loop_done)
next
  case (Suc k)
  then have lt: "i < c" and k: "k = c - Suc i" and le: "Suc i \<le> c" by simp_all
  have d: "c - i = Suc (c - Suc i)" using lt by simp
  show ?case
    unfolding organoid_loop_step[OF lt] Suc.hyps(1)[OF k le] d
    by (simp add: upt_conv_Cons map_Suc_upt[symmetric] comp_def ac_simps del: upt_Suc)
qed

lemma buildOrganoid_eq:
  "buildOrganoid js c w =
     w\<lparr>next_id := next_id w + 6,
       rand_count := rand_count w + 3 * c,
       children := children w @
         [Mesh (Geometry (next_id w) (SphereGeometry 1.0 32 32))
            (Single (Material (next_id w + 1) (MeshPhongMaterial 0xff6347 50 True 0.8)))
            (Vec3 0 0 0) 0,
          Mesh (Geometry (next_id w + 2) (SphereGeometry 1.2 32 32))
            (Single (Material (next_id w + 3) (MeshPhongMaterial 0x4682b4 50 True 0.6)))
            (Vec3 0 0 0) 0] @
         map (\<lambda>j. Mesh (Geometry (next_id w + 4) (SphereGeometry 0.1 16 16))
                (Single (Material (next_id w + 5) (MeshPhongMaterial 0x90ee90 30 False 1)))
                (cell_position js (random js (rand_count w + 3 * j)) (random js (rand_count w + 3 * j + 1))
                   (random js (rand_count w + 3 * j + 2))) 0) [0..<c]\<rparr>"
  by (simp add: buildOrganoid_def new_material_def new_geometry_def scene_add_def Let_def
        organoid_loop_eq)

lemma add_lighting_eq:
  "add_lighting w = w\<lparr>children := children w @ [ambientLight, directionalLight]\<rparr>"
  by (simp add: add_lighting_def scene_add_def)

lemma cleared_eq:
  "add_lighting (clear_loop w) =
     w\<lparr>children := [ambientLight, directionalLight],
       disposed := disposed w @ concat (map disposals (children w))\<rparr>"
  by (simp add: add_lighting_eq clear_loop_eq)

lemma content_mounted: "content mounted = []"
  by (simp add: content_def mounted_def add_lighting_eq ambientLight_def directionalLight_def)

lemma setStructureType_dna:
  "setStructureType js ''dna'' w =
     buildHelix 1 4 30
       (w\<lparr>children := [ambientLight, directionalLight],
          disposed := disposed w @ concat (map disposals (children w))\<rparr>)"
  by (simp add: setStructureType_def cleared_eq)

lemma setStructureType_organoid:
  "setStructureType js ''organoid'' w =
     buildOrganoid js 50
       (w\<lparr>children := [ambientLight, directionalLight],
          disposed := disposed w @ concat (map disposals (children w))\<rparr>)"
  by (simp add: setStructureType_def cleared_eq)

lemma setStructureType_other:
  "type \<noteq> ''dna'' \<Longrightarrow> type \<noteq> ''organoid'' \<Longrightarrow>
   setStructureType js type w =
       w\<lparr>children := [ambientLight, directionalLight],
          disposed := disposed w @ concat (map disposals (children w))\<rparr>"
  by (simp add: setStructureType_def cleared_eq)

lemma buildHelix_count:
  assumes "\<And>g j p t. P (Mesh g (Single (Material j (MeshPhongMaterial 0x007bff 80 False 1))) p t) = a"
      and "\<And>g j p t. P (Mesh g (Single (Material j (MeshPhongMaterial 0x800080 80 False 1))) p t) = b"
      and "\<And>g j p t. P (Mesh g (Single (Material j (MeshPhongMaterial 0xffa500 100 False 1))) p t) = c"
  shows "length (filter P (children (buildHelix r h n w))) =
           length (filter P (children w)) + 2 * (n + 1) * (if a then 1 else 0)
             + n * (if b then 1 else 0) + (if c then 1 else 0)"
  unfolding count_as_sum
  by (rule buildHelix_sum) (simp_all add: assms)

lemma lights_not_mesh [simp]: "\<not> isMesh ambientLight" "\<not> isMesh directionalLight"
  by (simp_all add: ambientLight_def directionalLight_def)

lemma content_dna: "length (content (setStructureType js ''dna'' w)) = 93"
  by (simp add: setStructureType_dna content_def
        buildHelix_count[where a=True and b=True and c=True])

lemma content_organoid: "length (content (setStructureType js ''organoid'' w)) = 52"
  by (simp add: setStructureType_organoid content_def buildOrganoid_eq filter_map comp_def)

lemma setStructureType_disposed:
  "disposed (setStructureType js type w) = disposed w @ concat (map disposals (children w))"
  by (simp add: setStructureType_def cleared_eq buildHelix_fields buildOrganoid_eq Let_def)

lemma setStructureType_lights:
  "\<exists>ns. children (setStructureType js type w) = ambientLight # directionalLight # ns
        \<and> list_all isMesh ns"
proof -
  let ?v = "w\<lparr>children := [ambientLight, directionalLight],
          disposed := disposed w @ concat (map disposals (children w))\<rparr>"
  consider "type = ''dna''" | "type = ''organoid''" | "type \<noteq> ''dna''" "type \<noteq> ''organoid''"
    by blast
  then show ?thesis
  proof cases
    case 1
    then show ?thesis
      using buildHelix_append[of 1 4 30 ?v] by (auto simp: setStructureType_dna)
  next
    case 2
    then show ?thesis
      by (simp add: setStructureType_organoid buildOrganoid_eq list_all_iff)
  next
    case 3
    then show ?thesis by (simp add: setStructureType_other)
  qed
qed

lemma setStructureType_old_children:
  "children (setStructureType js type w) =
   children (setStructureType js type (w\<lparr>children := []\<rparr>))"
proof -
  consider "type = ''dna''" | "type = ''organoid''" | "type \<noteq> ''dna''" "type \<noteq> ''organoid''"
    by blast
  then show ?thesis
  proof cases
    case 1
    then show ?thesis
      by (simp add: setStructureType_dna buildHelix_cong)
  next
    case 2
    then show ?thesis
      by (simp add: setStructureType_organoid buildOrganoid_eq)
  next
    case 3
    then show ?thesis by (simp add: setStructureType_other)
  qed
qed

lemma erase_ids_isMesh [simp]: "isMesh (erase_ids object) = isMesh object"
  by (cases object rule: erase_ids.cases) simp_all

lemma erase_ids_position [simp]: "position (erase_ids object) = position object"
  by (cases object rule: erase_ids.cases) simp_all

lemma erase_ids_rotation_z [simp]: "rotation_z (erase_ids object) = rotation_z object"
  by (cases object rule: erase_ids.cases) simp_all

lemma setStructureType_dna_erase:
  "map erase_ids (children (setStructureType js ''dna'' w)) =
   map erase_ids (children (setStructureType js' ''dna'' w'))"
  by (simp add: setStructureType_dna buildHelix_erase)

lemma content_erase:
  assumes "map erase_ids (children w) = map erase_ids (children w')"
  shows "map position (content w) = map position (content w')"
    and "map rotation_z (content w) = map rotation_z (content w')"
proof -
  have e: "map erase_ids (content w) = map erase_ids (content w')"
    using arg_cong[OF assms, of "filter isMesh"]
    by (simp add: content_def filter_map comp_def)
  show "map position (content w) = map position (content w')"
    using arg_cong[OF e, of "map position"] by (simp add: comp_def)
  show "map rotation_z (content w) = map rotation_z (content w')"
    using arg_cong[OF e, of "map rotation_z"] by (simp add: comp_def)
qed

lemma setStructureType_dna_no_color:
  assumes "c \<noteq> 0x007bff" "c \<noteq> 0x800080" "c \<noteq> 0xffa500"
  shows "filter (has_color c) (children (setStructureType js ''dna'' w)) = []"
proof -
  have "length (filter (has_color c) (children (setStructureType js ''dna'' w))) = 0"
    using assms
    by (simp add: setStructureType_dna buildHelix_count[where a=False and b=False and c=False]
          ambientLight_def directionalLight_def)
  then show ?thesis by simp
qed

lemma disposal_count_switch:
  "length (concat (map disposals (children (setStructureType js type w)))) =
     2 * nodes_built type"
proof -
  consider "type = ''dna''" | "type = ''organoid''" | "type \<noteq> ''dna''" "type \<noteq> ''organoid''"
    by blast
  then show ?thesis
  proof cases
    case 1
    then show ?thesis
      by (simp add: setStructureType_dna length_concat_as_sum nodes_built_def
            buildHelix_sum[where a=2 and b=2 and c=2] ambientLight_def directionalLight_def)
  next
    case 2
    then show ?thesis
      by (simp add: setStructureType_organoid buildOrganoid_eq nodes_built_def comp_def
            ambientLight_def directionalLight_def length_concat_as_sum sum_list_triv)
  next
    case 3
    then show ?thesis
      by (simp add: setStructureType_other nodes_built_def ambientLight_def directionalLight_def)
  qed
qed

lemma switches_Cons:
  "switches js (type # types) w = switches js types (setStructureType js type w)"
  by (simp add: switches_def)

lemma switches_disposed_length:
  "length (disposed (switches js (types @ [type]) w)) =
     length (disposed w) + length (concat (map disposals (children w)))
       + 2 * sum_list (map nodes_built types)"
proof (induction types arbitrary: w)
  case Nil
  show ?case by (simp add: switches_def setStructureType_disposed)
next
  case (Cons t ts)
  show ?case
    by (simp add: switches_Cons Cons.IH setStructureType_disposed disposal_count_switch
          del: length_concat)
qed

lemma helix_loop_sum_ids:
  fixes f :: "object3d \<Rightarrow> nat"
  assumes a: "\<And>g p t. k0 \<le> gid g \<Longrightarrow> f (Mesh g (Single m) p t) = a"
      and b: "\<And>g p t. k0 \<le> gid g \<Longrightarrow> f (Mesh g (Single bm) p t) = b"
  shows "i \<le> n \<Longrightarrow> k0 \<le> next_id w \<Longrightarrow>
     sum_list (map f (children (helix_loop r h n sh m bm i w))) =
       sum_list (map f (children w)) + 2 * (n - i + 1) * a + (n - i) * b"
proof (induction "n - i" arbitrary: i w)
  case 0
  then have "i = n" by simp
  then show ?case using 0 by (simp add: helix_loop_last a)
next
  case (Suc k)
  then have lt: "i < n" and k: "k = n - Suc i" and le: "Suc i \<le> n" by simp_all
  have "n - i = Suc (n - Suc i)" using lt by simp
  then show ?case
    using Suc.hyps(1)[OF k le] Suc.prems(2)
    by (simp add: helix_loop_step[OF lt] a b algebra_simps)
qed

lemma count_concat_as_sum:
  "count_list (concat (map g xs)) r = sum_list (map (\<lambda>x. count_list (g x) r) xs)"
  by (induction xs) simp_all

lemma mounted_fields [simp]:
  "children mounted = [ambientLight, directionalLight]"
  "next_id mounted = 0" "disposed mounted = []" "rand_count mounted = 0"
  by (simp_all add: mounted_def add_lighting_eq)

lemma lights_disposals [simp]: "disposals ambientLight = []" "disposals directionalLight = []"
  by (simp_all add: ambientLight_def directionalLight_def)

lemma disposed_dna_organoid:
  "disposed (switches js [''dna'', ''organoid''] mounted) =
     concat (map disposals (children (setStructureType js ''dna'' mounted)))"
  by (simp add: switches_def setStructureType_disposed)

lemma shared_material_disposals:
  "count_list (concat (map disposals (children (setStructureType js ''dna'' mounted)))) 0 = 62"
  unfolding count_concat_as_sum setStructureType_dna buildHelix_unfold Let_def
  by (simp add: helix_loop_fields helix_loop_sum_ids[where a=1 and b=0 and ?k0.0=2])

lemma distinct_count_list_le: "distinct xs \<Longrightarrow> count_list xs x \<le> 1"
  by (induction xs) (auto simp: count_list_0_iff)

lemma content_other:
  "type \<noteq> ''dna'' \<Longrightarrow> type \<noteq> ''organoid'' \<Longrightarrow> content (setStructureType js type w) = []"
  by (simp add: setStructureType_other content_def)

lemma content_nodes_built: "length (content (setStructureType js type w)) = nodes_built type"
  using content_dna[of js w] content_organoid[of js w] content_other[of type js w]
  by (auto simp: nodes_built_def)

lemma mounted_dna_fields:
  "next_id (setStructureType js ''dna'' mounted) = 65"
  by (simp add: setStructureType_dna buildHelix_fields)




lemma round_half_even_error: "\<bar>of_int (round_half_even y) - y\<bar> \<le> 1 / 2"
proof -
  have "of_int \<lfloor>y\<rfloor> \<le> y" "y < of_int \<lfloor>y\<rfloor> + 1" by linarith+
  then show ?thesis
    unfolding round_half_even_def Let_def by (auto simp: abs_le_iff)
qed

lemma round_half_even_eq:
  assumes "of_int m - 1 / 2 < y" and "y < of_int m + 1 / 2"
  shows "round_half_even y = m"
proof (cases "of_int m \<le> y")
  case True
  then have "\<lfloor>y\<rfloor> = m" using assms(2) by linarith
  then show ?thesis using assms(2) by (simp add: round_half_even_def)
next
  case False
  then have f: "\<lfloor>y\<rfloor> = m - 1" using assms(1) by linarith
  have "1 / 2 < y - of_int (m - 1)" using assms(1) by simp
  then show ?thesis by (simp add: round_half_even_def f)
qed

lemma fl_error:
  assumes "\<bar>x\<bar> \<le> 8"
  shows "\<bar>fl x - x\<bar> \<le> 1 / 10 ^ 6"
proof (cases "x = 0")
  case True
  then show ?thesis by (simp add: fl_def)
next
  case False
  define e where "e = max \<lfloor>log 2 \<bar>x\<bar>\<rfloor> (- 1022)"
  define q :: real where "q = 2 powr (of_int e - 52)"
  have qpos: "0 < q" by (simp add: q_def)
  have flx: "fl x = of_int (round_half_even (x / q)) * q"
    using False by (simp add: fl_def e_def q_def Let_def)
  have "\<bar>x\<bar> < 2 powr 4" using assms by simp
  then have "log 2 \<bar>x\<bar> < 4" using False by (simp add: log_less_iff)
  then have "\<lfloor>log 2 \<bar>x\<bar>\<rfloor> \<le> 3" by linarith
  then have "e \<le> 3" by (simp add: e_def)
  then have "of_int e - 52 \<le> (- 49 :: real)" by simp
  then have "q \<le> 2 powr (- 49)" unfolding q_def by (rule powr_mono) simp
  also have "(2::real) powr (- 49) = 1 / 2 ^ 49"
    by (simp add: powr_minus_divide)
  finally have qle: "q \<le> 1 / 2 ^ 49" .
  have "fl x - x = (of_int (round_half_even (x / q)) - x / q) * q"
    using qpos by (simp add: flx field_simps)
  then have "\<bar>fl x - x\<bar> = \<bar>of_int (round_half_even (x / q)) - x / q\<bar> * q"
    using qpos by (simp add: abs_mult)
  also have "\<dots> \<le> 1 / 2 * q"
    using round_half_even_error[of "x / q"] qpos by (intro mult_right_mono) simp_all
  also have "\<dots> \<le> 1 / 2 * (1 / 2 ^ 49)" using qle by simp
  also have "\<dots> \<le> 1 / 10 ^ 6" by simp
  finally show ?thesis .
qed

lemma fl_eval:
  assumes "1 / 2 ^ Suc n \<le> \<bar>x\<bar>" and "\<bar>x\<bar> < 1 / 2 ^ n" and "n < 1022"
  shows "fl x = of_int (round_half_even (x * 2 ^ (n + 53))) / 2 ^ (n + 53)"
proof -
  have "(0::real) < 1 / 2 ^ Suc n" by simp
  then have "0 < \<bar>x\<bar>" using assms(1) by (rule less_le_trans)
  then have x0: "x \<noteq> 0" by simp
  have p1: "(2::real) powr (of_int (- int (Suc n))) = 1 / 2 ^ Suc n"
    by (simp add: powr_minus_divide powr_realpow flip: of_nat_Suc)
  have p2: "(2::real) powr (of_int (- int (Suc n) + 1)) = 1 / 2 ^ n"
    by (simp add: powr_minus_divide powr_realpow)
  have xpos: "0 < \<bar>x\<bar>" using x0 by simp
  have c: "2 powr of_int (- int (Suc n)) \<le> \<bar>x\<bar>
      \<and> \<bar>x\<bar> < 2 powr of_int (- int (Suc n) + 1)"
    unfolding p1 p2 using assms(1,2) by blast
  have "\<lfloor>log 2 \<bar>x\<bar>\<rfloor> = - int (Suc n)"
    by (rule iffD2[OF floor_log_eq_powr_iff[OF xpos one_less_numeral_iff[THEN iffD2]] c]) simp
  then have e: "max \<lfloor>log 2 \<bar>x\<bar>\<rfloor> (- 1022) = - int (Suc n)"
    using assms(3) by simp
  have q: "(2::real) powr (of_int (- int (Suc n)) - 52) = 1 / 2 ^ (n + 53)"
  proof -
    have "of_int (- int (Suc n)) - 52 = - real (n + 53)" by simp
    then show ?thesis by (simp only: powr_minus_divide powr_realpow zero_less_numeral)
  qed
  show ?thesis
    using x0 by (simp only: fl_def e q Let_def if_False) simp
qed

lemma fl_one: "fl 1 = 1"
proof -
  have e: "max \<lfloor>log 2 \<bar>1::real\<bar>\<rfloor> (- 1022) = 0" by simp
  have q: "(2::real) powr (of_int 0 - 52) = 1 / 2 ^ 52"
    by (simp add: powr_minus_divide)
  have "fl 1 = of_int (round_half_even (1 / (1 / 2 ^ 52))) * (1 / 2 ^ 52)"
    by (simp only: fl_def Let_def e q) simp
  then show ?thesis by (simp add: round_half_even_def)
qed

lemma fmul_0 [simp]: "fmul 0 y = 0" "fmul x 0 = 0"
  by (simp_all add: fmul_def fl_def)

lemma fl_0_8: "fl 0.8 = 3602879701896397 / 2 ^ 52"
  by (subst fl_eval[of 0]) (simp_all add: round_half_even_def)

text \<open>The products of the example, rounded.\<close>

lemma ex_r: "fmul (1 - 1 / 2 ^ 53) (3602879701896397 / 2 ^ 52) = 7205759403792793 / 2 ^ 53"
  unfolding fmul_def
  by (subst fl_eval[of 0]) (simp_all add: round_half_even_def)

lemma ex_theta: "fmul (195 / 1024) Math_PI = 5388579537677913 / 2 ^ 53"
  unfolding fmul_def Math_PI_def
  by (subst fl_eval[of 0]) (simp_all add: round_half_even_def)

lemma ex_a:
  "fmul (7205759403792793 / 2 ^ 53) (2536424355836011 / 2 ^ 52) = 8116557938675235 / 2 ^ 54"
  unfolding fmul_def
  by (subst fl_eval[of 1]) (simp_all add: round_half_even_def)

lemma ex_z:
  "fmul (7205759403792793 / 2 ^ 53) (7442838461440245 / 2 ^ 53) = 1488567692288049 / 2 ^ 51"
  unfolding fmul_def
  by (subst fl_eval[of 0]) (simp_all add: round_half_even_def)

lemma ex_x: "fmul (8116557938675235 / 2 ^ 54) 1 = 8116557938675235 / 2 ^ 54"
  unfolding fmul_def
  by (subst fl_eval[of 1]) (simp_all add: round_half_even_def)

text \<open>
  The sine and the cosine of the angle of the example, to within half a unit in the last
  place of a double, from their Maclaurin polynomials of degree 17.
\<close>

lemma sum18:
  fixes f :: "nat \<Rightarrow> real"
  shows "(\<Sum>m<18. f m) = f 0 + f 1 + f 2 + f 3 + f 4 + f 5 + f 6 + f 7 + f 8 + f 9 + f 10
     + f 11 + f 12 + f 13 + f 14 + f 15 + f 16 + f 17"
  by (simp add: eval_nat_numeral)

lemma sin_poly: 
  fixes x :: real
  shows "(\<Sum>m<18. sin_coeff m * x ^ m) =
     x - x^3 / 6 + x^5 / 120 - x^7 / 5040 + x^9 / 362880 - x^11 / 39916800
       + x^13 / 6227020800 - x^15 / 1307674368000 + x^17 / 355687428096000"
  unfolding sum18 by (simp add: sin_coeff_def fact_numeral)

lemma cos_poly: 
  fixes x :: real
  shows "(\<Sum>m<18. cos_coeff m * x ^ m) =
     1 - x^2 / 2 + x^4 / 24 - x^6 / 720 + x^8 / 40320 - x^10 / 3628800
       + x^12 / 479001600 - x^14 / 87178291200 + x^16 / 20922789888000"
  unfolding sum18 by (simp add: cos_coeff_def fact_numeral)

lemma sin_theta0:
  "(5072848711672022 - 1 / 2) / 2 ^ 53 < sin (5388579537677913 / 2 ^ 53 :: real)"
  "sin (5388579537677913 / 2 ^ 53 :: real) < (5072848711672022 + 1 / 2) / 2 ^ 53"
proof -
  let ?x = "5388579537677913 / 2 ^ 53 :: real"
  let ?P = "?x - ?x^3 / 6 + ?x^5 / 120 - ?x^7 / 5040 + ?x^9 / 362880 - ?x^11 / 39916800
       + ?x^13 / 6227020800 - ?x^15 / 1307674368000 + ?x^17 / 355687428096000"
  let ?R = "?x ^ 18 / 6402373705728000"
  have "\<bar>sin ?x - (\<Sum>m<18. sin_coeff m * ?x ^ m)\<bar> \<le> inverse (fact 18) * \<bar>?x\<bar> ^ 18"
    by (rule Maclaurin_sin_bound)
  also have "inverse (fact 18) * \<bar>?x\<bar> ^ 18 = ?R"
    by (simp add: fact_numeral)
  finally have b: "\<bar>sin ?x - ?P\<bar> \<le> ?R"
    unfolding sin_poly .
  have lo: "?P - ?R \<le> sin ?x" and hi: "sin ?x \<le> ?P + ?R"
    using b by linarith+
  have "(5072848711672022 - 1 / 2) / 2 ^ 53 < ?P - ?R"
    by (simp add: power_divide)
  then show "(5072848711672022 - 1 / 2) / 2 ^ 53 < sin ?x"
    using lo by (rule less_le_trans)
  have "?P + ?R < (5072848711672022 + 1 / 2) / 2 ^ 53"
    by (simp add: power_divide)
  with hi show "sin ?x < (5072848711672022 + 1 / 2) / 2 ^ 53"
    by (rule le_less_trans)
qed

lemma cos_theta0:
  "(7442838461440245 - 1 / 2) / 2 ^ 53 < cos (5388579537677913 / 2 ^ 53 :: real)"
  "cos (5388579537677913 / 2 ^ 53 :: real) < (7442838461440245 + 1 / 2) / 2 ^ 53"
proof -
  let ?x = "5388579537677913 / 2 ^ 53 :: real"
  let ?P = "1 - ?x^2 / 2 + ?x^4 / 24 - ?x^6 / 720 + ?x^8 / 40320 - ?x^10 / 3628800
       + ?x^12 / 479001600 - ?x^14 / 87178291200 + ?x^16 / 20922789888000"
  let ?R = "?x ^ 18 / 6402373705728000"
  obtain t where t: "cos ?x = (\<Sum>m<18. cos_coeff m * ?x ^ m)
      + (cos (t + 1 / 2 * real (18::nat) * pi) / fact 18) * ?x ^ 18"
    using Maclaurin_cos_expansion[of ?x 18] by blast
  have "\<bar>cos ?x - ?P\<bar> = \<bar>cos (t + 1 / 2 * real (18::nat) * pi)\<bar> * ?R"
    unfolding t cos_poly by (simp add: fact_numeral abs_mult)
  also have "\<dots> \<le> 1 * ?R"
    by (intro mult_right_mono abs_cos_le_one) simp
  finally have b: "\<bar>cos ?x - ?P\<bar> \<le> ?R" by simp
  have lo: "?P - ?R \<le> cos ?x" and hi: "cos ?x \<le> ?P + ?R"
    using b by linarith+
  have "(7442838461440245 - 1 / 2) / 2 ^ 53 < ?P - ?R"
    by (simp add: power_divide)
  then show "(7442838461440245 - 1 / 2) / 2 ^ 53 < cos ?x"
    using lo by (rule less_le_trans)
  have "?P + ?R < (7442838461440245 + 1 / 2) / 2 ^ 53"
    by (simp add: power_divide)
  with hi show "cos ?x < (7442838461440245 + 1 / 2) / 2 ^ 53"
    by (rule le_less_trans)
qed


lemma fl_sin_theta0:
  "fl (sin (5388579537677913 / 2 ^ 53)) = 2536424355836011 / 2 ^ 52"
proof -
  let ?s = "sin (5388579537677913 / 2 ^ 53 :: real)"
  have lo: "(5072848711672022 - 1 / 2) / 2 ^ 53 < ?s"
    and hi: "?s < (5072848711672022 + 1 / 2) / 2 ^ 53"
    by (rule sin_theta0)+
  have pos: "0 < ?s" using lo by (rule less_trans[rotated]) simp
  have r1: "1 / 2 ^ Suc 0 \<le> \<bar>?s\<bar>"
    using lo pos by simp
  have r2: "\<bar>?s\<bar> < 1 / 2 ^ 0"
    using hi pos by simp
  have rhe: "round_half_even (?s * 2 ^ (0 + 53)) = 5072848711672022"
    using lo hi by (intro round_half_even_eq) (simp_all add: field_simps)
  have "fl ?s = of_int (round_half_even (?s * 2 ^ (0 + 53))) / 2 ^ (0 + 53)"
    by (rule fl_eval[OF r1 r2]) simp
  then have "fl ?s = of_int 5072848711672022 / 2 ^ (0 + 53)"
    by (simp only: rhe)
  then show ?thesis by simp
qed

lemma fl_cos_theta0:
  "fl (cos (5388579537677913 / 2 ^ 53)) = 7442838461440245 / 2 ^ 53"
proof -
  let ?c = "cos (5388579537677913 / 2 ^ 53 :: real)"
  have lo: "(7442838461440245 - 1 / 2) / 2 ^ 53 < ?c"
    and hi: "?c < (7442838461440245 + 1 / 2) / 2 ^ 53"
    by (rule cos_theta0)+
  have pos: "0 < ?c" using lo by (rule less_trans[rotated]) simp
  have r1: "1 / 2 ^ Suc 0 \<le> \<bar>?c\<bar>"
    using lo pos by simp
  have r2: "\<bar>?c\<bar> < 1 / 2 ^ 0"
    using hi pos by simp
  have rhe: "round_half_even (?c * 2 ^ (0 + 53)) = 7442838461440245"
    using lo hi by (intro round_half_even_eq) (simp_all add: field_simps)
  have "fl ?c = of_int (round_half_even (?c * 2 ^ (0 + 53))) / 2 ^ (0 + 53)"
    by (rule fl_eval[OF r1 r2]) simp
  then have "fl ?c = of_int 7442838461440245 / 2 ^ (0 + 53)"
    by (simp only: rhe)
  then show ?thesis by simp
qed

text \<open>The stored doubles stay near the exact coordinates.\<close>

lemma sq_perturb:
  fixes v p d m :: real
  assumes "\<bar>v - p\<bar> \<le> d" and "\<bar>p\<bar> \<le> m"
  shows "v\<^sup>2 \<le> p\<^sup>2 + 2 * m * d + d\<^sup>2"
proof -
  define e where "e = v - p"
  have e: "\<bar>e\<bar> \<le> d" using assms(1) by (simp add: e_def)
  have d0: "0 \<le> d" using e by linarith
  have "p * e \<le> \<bar>p\<bar> * \<bar>e\<bar>" by (metis abs_ge_self abs_mult)
  also have "\<dots> \<le> m * d" using assms(2) e by (intro mult_mono) simp_all
  finally have 1: "p * e \<le> m * d" .
  have "e\<^sup>2 = \<bar>e\<bar>\<^sup>2" by simp
  also have "\<dots> \<le> d\<^sup>2" using e by (intro power_mono) simp_all
  finally have 2: "e\<^sup>2 \<le> d\<^sup>2" .
  have "v\<^sup>2 = p\<^sup>2 + 2 * (p * e) + e\<^sup>2"
    by (simp add: e_def power2_eq_square algebra_simps)
  then show ?thesis using 1 2 by linarith
qed

lemma pyth_approx:
  fixes S C t d :: real
  assumes "\<bar>S - sin t\<bar> \<le> d" and "\<bar>C - cos t\<bar> \<le> d"
  shows "S\<^sup>2 + C\<^sup>2 \<le> 1 + 4 * d + 2 * d\<^sup>2"
proof -
  have "S\<^sup>2 \<le> (sin t)\<^sup>2 + 2 * 1 * d + d\<^sup>2"
    by (rule sq_perturb[OF assms(1)]) simp
  moreover have "C\<^sup>2 \<le> (cos t)\<^sup>2 + 2 * 1 * d + d\<^sup>2"
    by (rule sq_perturb[OF assms(2)]) simp
  moreover have "(sin t)\<^sup>2 + (cos t)\<^sup>2 = 1" by simp
  ultimately show ?thesis by linarith
qed

lemma abs_perturb:
  fixes v p d m :: real
  assumes "\<bar>v - p\<bar> \<le> d" and "\<bar>p\<bar> \<le> m"
  shows "\<bar>v\<bar> \<le> m + d"
  using assms by linarith

lemma abs_mult_le:
  fixes a b :: real
  assumes "\<bar>a\<bar> \<le> m" and "\<bar>b\<bar> \<le> n"
  shows "\<bar>a * b\<bar> \<le> m * n"
  unfolding abs_mult using assms by (intro mult_mono) linarith+

lemma rounded_cell_bound:
  fixes r S C s c a x y z theta phi :: real
  assumes r: "\<bar>r\<bar> \<le> 800002 / 10 ^ 6"
      and S: "\<bar>S - sin theta\<bar> \<le> 1 / 10 ^ 6" and C: "\<bar>C - cos theta\<bar> \<le> 1 / 10 ^ 6"
      and s: "\<bar>s - sin phi\<bar> \<le> 1 / 10 ^ 6" and c: "\<bar>c - cos phi\<bar> \<le> 1 / 10 ^ 6"
      and a: "\<bar>a - r * S\<bar> \<le> 1 / 10 ^ 6"
      and x: "\<bar>x - a * c\<bar> \<le> 1 / 10 ^ 6"
      and y: "\<bar>y - a * s\<bar> \<le> 1 / 10 ^ 6"
      and z: "\<bar>z - r * C\<bar> \<le> 1 / 10 ^ 6"
  shows "x\<^sup>2 + y\<^sup>2 + z\<^sup>2 \<le> (8001 / 10 ^ 4)\<^sup>2"
proof -
  define d :: real where "d = 1 / 1000000"
  define K :: real where "K = 1 + 4 * d + 2 * d\<^sup>2"
  define R :: real where "R = 800002 / 1000000"
  have r': "\<bar>r\<bar> \<le> R" using r by (simp add: R_def)
  have S': "\<bar>S - sin theta\<bar> \<le> d" and C': "\<bar>C - cos theta\<bar> \<le> d"
    and s': "\<bar>s - sin phi\<bar> \<le> d" and c': "\<bar>c - cos phi\<bar> \<le> d"
    and a': "\<bar>a - r * S\<bar> \<le> d" and x': "\<bar>x - a * c\<bar> \<le> d"
    and y': "\<bar>y - a * s\<bar> \<le> d" and z': "\<bar>z - r * C\<bar> \<le> d"
    using S C s c a x y z by (simp_all add: d_def)
  have d0: "0 \<le> d" and d1: "d \<le> 1 / 1000000" by (simp_all add: d_def)
  have K1: "1 \<le> K" by (simp add: K_def d_def power2_eq_square)
  have SC: "S\<^sup>2 + C\<^sup>2 \<le> K" unfolding K_def by (rule pyth_approx[OF S' C'])
  have sc: "s\<^sup>2 + c\<^sup>2 \<le> K" unfolding K_def by (rule pyth_approx[OF s' c'])
  have aS: "\<bar>S\<bar> \<le> 1 + d" by (rule abs_perturb[OF S']) simp
  have aC: "\<bar>C\<bar> \<le> 1 + d" by (rule abs_perturb[OF C']) simp
  have as: "\<bar>s\<bar> \<le> 1 + d" by (rule abs_perturb[OF s']) simp
  have ac: "\<bar>c\<bar> \<le> 1 + d" by (rule abs_perturb[OF c']) simp
  have Rd: "R * (1 + d) \<le> 9 / 10" by (simp add: R_def d_def)
  have rS: "\<bar>r * S\<bar> \<le> 9 / 10"
    using abs_mult_le[OF r' aS] Rd by linarith
  have rC: "\<bar>r * C\<bar> \<le> 9 / 10"
    using abs_mult_le[OF r' aC] Rd by linarith
  have rS1: "\<bar>r * S\<bar> \<le> 1" and rC1: "\<bar>r * C\<bar> \<le> 1" using rS rC by linarith+
  have aa: "\<bar>a\<bar> \<le> 1" using rS a' d1 by linarith
  have "(1::real) * (1 + d) \<le> 2" using d1 by simp
  then have acb: "\<bar>a * c\<bar> \<le> 2" and asb: "\<bar>a * s\<bar> \<le> 2"
    using abs_mult_le[OF aa ac] abs_mult_le[OF aa as] by linarith+
  have a2: "a\<^sup>2 \<le> (r * S)\<^sup>2 + 2 * 1 * d + d\<^sup>2"
    by (rule sq_perturb[OF a' rS1])
  have x2: "x\<^sup>2 \<le> (a * c)\<^sup>2 + 2 * 2 * d + d\<^sup>2"
    by (rule sq_perturb[OF x' acb])
  have y2: "y\<^sup>2 \<le> (a * s)\<^sup>2 + 2 * 2 * d + d\<^sup>2"
    by (rule sq_perturb[OF y' asb])
  have z2: "z\<^sup>2 \<le> (r * C)\<^sup>2 + 2 * 1 * d + d\<^sup>2"
    by (rule sq_perturb[OF z' rC1])
  have "(a * c)\<^sup>2 + (a * s)\<^sup>2 = a\<^sup>2 * (s\<^sup>2 + c\<^sup>2)"
    by (simp add: power_mult_distrib algebra_simps)
  also have "\<dots> \<le> a\<^sup>2 * K" using sc by (intro mult_left_mono) simp_all
  also have "\<dots> \<le> ((r * S)\<^sup>2 + 2 * 1 * d + d\<^sup>2) * K"
    using a2 K1 by (intro mult_right_mono) simp_all
  finally have xy: "(a * c)\<^sup>2 + (a * s)\<^sup>2 \<le> (r * S)\<^sup>2 * K + (2 * d + d\<^sup>2) * K"
    by (simp add: algebra_simps)
  have "(r * C)\<^sup>2 * 1 \<le> (r * C)\<^sup>2 * K"
    using K1 by (intro mult_left_mono) simp_all
  then have "(r * S)\<^sup>2 * K + (r * C)\<^sup>2 \<le> r\<^sup>2 * (S\<^sup>2 + C\<^sup>2) * K"
    by (simp add: power_mult_distrib algebra_simps)
  also have "r\<^sup>2 * (S\<^sup>2 + C\<^sup>2) * K \<le> r\<^sup>2 * K * K"
    using SC K1 by (intro mult_right_mono mult_left_mono) simp_all
  also have "r\<^sup>2 * K * K \<le> R\<^sup>2 * K * K"
  proof -
    have "r\<^sup>2 = \<bar>r\<bar>\<^sup>2" by simp
    also have "\<dots> \<le> R\<^sup>2" using r' by (intro power_mono) simp_all
    finally show ?thesis using K1 by (intro mult_right_mono) simp_all
  qed
  finally have main: "(r * S)\<^sup>2 * K + (r * C)\<^sup>2 \<le> R\<^sup>2 * K * K" .
  have "x\<^sup>2 + y\<^sup>2 + z\<^sup>2 \<le> R\<^sup>2 * K * K + (2 * d + d\<^sup>2) * K + 10 * d + 3 * d\<^sup>2"
    using x2 y2 z2 xy main by linarith
  also have "\<dots> \<le> (8001 / 10 ^ 4)\<^sup>2"
    by (simp add: K_def d_def R_def power2_eq_square)
  finally show ?thesis .
qed



lemma correctly_rounded_accurate:
  "\<bar>Math_sin (correctly_rounded draws) t - sin t\<bar> \<le> 1 / 10 ^ 6"
  "\<bar>Math_cos (correctly_rounded draws) t - cos t\<bar> \<le> 1 / 10 ^ 6"
proof -
  have s: "\<bar>sin t\<bar> \<le> 8" and c: "\<bar>cos t\<bar> \<le> 8"
    using abs_sin_le_one[of t] abs_cos_le_one[of t] by linarith+
  show "\<bar>Math_sin (correctly_rounded draws) t - sin t\<bar> \<le> 1 / 10 ^ 6"
    unfolding correctly_rounded_def engine.select_convs by (rule fl_error[OF s])
  show "\<bar>Math_cos (correctly_rounded draws) t - cos t\<bar> \<le> 1 / 10 ^ 6"
    unfolding correctly_rounded_def engine.select_convs by (rule fl_error[OF c])
qed

lemma example_draws_range: "0 \<le> example_draws k \<and> example_draws k < 1"
  by (simp add: example_draws_def)

lemma example_cell:
  "cell_position (correctly_rounded draws) 0 (195 / 1024) (1 - 1 / 2 ^ 53) =
     Vec3 (8116557938675235 / 2 ^ 54) 0 (1488567692288049 / 2 ^ 51)"
proof -
  have phi: "fmul (fmul 0 Math_PI) 2 = 0" by simp
  have r: "fmul (1 - 1 / 2 ^ 53) (fl 0.8) = 7205759403792793 / 2 ^ 53"
    by (simp only: fl_0_8 ex_r)
  have s0: "fl (sin 0) = 0" by (simp add: fl_def)
  have c0: "fl (cos 0) = 1" by (simp add: fl_one)
  show ?thesis
    unfolding cell_position_def correctly_rounded_def Let_def engine.select_convs
      phi r ex_theta s0 c0 fl_sin_theta0 fl_cos_theta0 ex_a ex_x ex_z fmul_0
    by (rule refl)
qed

lemma example_norm:
  "0.8 < vec_length (Vec3 (8116557938675235 / 2 ^ 54) 0 (1488567692288049 / 2 ^ 51))"
proof -
  have "(4 / 5 :: real)\<^sup>2 < 8116557938675235 / 2 ^ 54 * (8116557938675235 / 2 ^ 54) + 0 * 0
      + 1488567692288049 / 2 ^ 51 * (1488567692288049 / 2 ^ 51)"
    by (simp add: power2_eq_square)
  then have "4 / 5 < vec_length (Vec3 (8116557938675235 / 2 ^ 54) 0 (1488567692288049 / 2 ^ 51))"
    unfolding vec_length_def vec3.sel by (intro real_less_rsqrt)
  then show ?thesis by simp
qed

lemma cell_position_bound:
  assumes u: "0 \<le> u3" "u3 < 1"
      and S: "\<forall>t. \<bar>Math_sin js t - sin t\<bar> \<le> 1 / 10 ^ 6"
      and C: "\<forall>t. \<bar>Math_cos js t - cos t\<bar> \<le> 1 / 10 ^ 6"
  shows "vec_length (cell_position js u1 u2 u3) \<le> 8001 / 10 ^ 4"
proof -
  define phi where "phi = fmul (fmul u1 Math_PI) 2"
  define theta where "theta = fmul u2 Math_PI"
  define c8 where "c8 = fl 0.8"
  define r where "r = fmul u3 c8"
  define a where "a = fmul r (Math_sin js theta)"
  define x where "x = fmul a (Math_cos js phi)"
  define y where "y = fmul a (Math_sin js phi)"
  define z where "z = fmul r (Math_cos js theta)"
  have pos: "cell_position js u1 u2 u3 = Vec3 x y z"
    unfolding cell_position_def Let_def phi_def theta_def r_def c8_def a_def x_def y_def z_def
    by (rule refl)
  have St: "\<bar>Math_sin js theta - sin theta\<bar> \<le> 1 / 10 ^ 6"
    and Ct: "\<bar>Math_cos js theta - cos theta\<bar> \<le> 1 / 10 ^ 6"
    and Sp: "\<bar>Math_sin js phi - sin phi\<bar> \<le> 1 / 10 ^ 6"
    and Cp: "\<bar>Math_cos js phi - cos phi\<bar> \<le> 1 / 10 ^ 6"
    using S C by blast+
  have bS: "\<bar>Math_sin js theta\<bar> \<le> 1 + 1 / 10 ^ 6" by (rule abs_perturb[OF St]) simp
  have bC: "\<bar>Math_cos js theta\<bar> \<le> 1 + 1 / 10 ^ 6" by (rule abs_perturb[OF Ct]) simp
  have bs: "\<bar>Math_sin js phi\<bar> \<le> 1 + 1 / 10 ^ 6" by (rule abs_perturb[OF Sp]) simp
  have bc: "\<bar>Math_cos js phi\<bar> \<le> 1 + 1 / 10 ^ 6" by (rule abs_perturb[OF Cp]) simp
  have "\<bar>fl 0.8 - 0.8\<bar> \<le> 1 / 10 ^ 6" by (rule fl_error) simp
  then have "\<bar>c8 - 4 / 5\<bar> \<le> 1 / 1000000" by (simp add: c8_def)
  then have b8: "\<bar>c8\<bar> \<le> 800001 / 1000000" by linarith
  have bu: "\<bar>u3\<bar> \<le> 1" using u by simp
  have p0: "\<bar>u3 * c8\<bar> \<le> 1 * (800001 / 1000000)" by (rule abs_mult_le[OF bu b8])
  then have "\<bar>u3 * c8\<bar> \<le> 8" by simp
  then have "\<bar>r - u3 * c8\<bar> \<le> 1 / 10 ^ 6" unfolding r_def fmul_def by (rule fl_error)
  then have "\<bar>r - u3 * c8\<bar> \<le> 1 / 1000000" by simp
  then have br': "\<bar>r\<bar> \<le> 800002 / 1000000" using p0 by linarith
  then have br: "\<bar>r\<bar> \<le> 800002 / 10 ^ 6" by simp
  have "\<bar>r * Math_sin js theta\<bar> \<le> 800002 / 10 ^ 6 * (1 + 1 / 10 ^ 6)"
    by (rule abs_mult_le[OF br bS])
  then have prS: "\<bar>r * Math_sin js theta\<bar> \<le> 9 / 10" by simp
  then have "\<bar>r * Math_sin js theta\<bar> \<le> 8" by simp
  then have ea: "\<bar>a - r * Math_sin js theta\<bar> \<le> 1 / 10 ^ 6"
    unfolding a_def fmul_def by (rule fl_error)
  then have "\<bar>a - r * Math_sin js theta\<bar> \<le> 1 / 1000000" by simp
  then have ba: "\<bar>a\<bar> \<le> 1" using prS by linarith
  have "\<bar>r * Math_cos js theta\<bar> \<le> 800002 / 10 ^ 6 * (1 + 1 / 10 ^ 6)"
    by (rule abs_mult_le[OF br bC])
  then have "\<bar>r * Math_cos js theta\<bar> \<le> 8" by simp
  then have ez: "\<bar>z - r * Math_cos js theta\<bar> \<le> 1 / 10 ^ 6"
    unfolding z_def fmul_def by (rule fl_error)
  have "\<bar>a * Math_cos js phi\<bar> \<le> 1 * (1 + 1 / 10 ^ 6)" by (rule abs_mult_le[OF ba bc])
  then have "\<bar>a * Math_cos js phi\<bar> \<le> 8" by simp
  then have ex: "\<bar>x - a * Math_cos js phi\<bar> \<le> 1 / 10 ^ 6"
    unfolding x_def fmul_def by (rule fl_error)
  have "\<bar>a * Math_sin js phi\<bar> \<le> 1 * (1 + 1 / 10 ^ 6)" by (rule abs_mult_le[OF ba bs])
  then have "\<bar>a * Math_sin js phi\<bar> \<le> 8" by simp
  then have ey: "\<bar>y - a * Math_sin js phi\<bar> \<le> 1 / 10 ^ 6"
    unfolding y_def fmul_def by (rule fl_error)
  have "x\<^sup>2 + y\<^sup>2 + z\<^sup>2 \<le> (8001 / 10 ^ 4)\<^sup>2"
    by (rule rounded_cell_bound[OF br St Ct Sp Cp ea ex ey ez])
  then have "sqrt (x * x + y * y + z * z) \<le> 8001 / 10 ^ 4"
    by (intro real_le_lsqrt) (simp_all add: power2_eq_square)
  then show ?thesis by (simp add: pos vec_length_def)
qed

lemma resize_idem: "resize newWidth newHeight (resize newWidth newHeight v) = resize newWidth newHeight v"
  by (cases "cameraRef v"; cases "rendererRef v")
     (simp_all add: resize_def onWindowResize_def)

section \<open>The claims\<close>

text \<open>
  C2. For every segment count of at least 1 the helix builder adds exactly
  \<open>2 * (segmentCount + 1)\<close> backbone meshes (blue), \<open>segmentCount\<close> base-pair meshes (purple)
  and one core mesh (orange), \<open>3 * segmentCount + 3\<close> content nodes in all; with the
  constants of the source (radius 1, height 4, 30 segments) a switch to \<^verbatim>\<open>dna\<close> leaves
  exactly 93 content nodes.
\<close>

theorem helix_node_count:
  assumes "1 \<le> segmentCount"
  shows "length (content (buildHelix radius height segmentCount w)) =
           length (content w) + (3 * segmentCount + 3)
       \<and> length (filter (has_color 0x007bff) (children (buildHelix radius height segmentCount w))) =
           length (filter (has_color 0x007bff) (children w)) + 2 * (segmentCount + 1)
       \<and> length (filter (has_color 0x800080) (children (buildHelix radius height segmentCount w))) =
           length (filter (has_color 0x800080) (children w)) + segmentCount
       \<and> length (filter (has_color 0xffa500) (children (buildHelix radius height segmentCount w))) =
           length (filter (has_color 0xffa500) (children w)) + 1
       \<and> length (content (setStructureType js ''dna'' w)) = 93"
proof -
  have 1: "length (content (buildHelix r h n v)) = length (content v) + (3 * n + 3)" for r h n v
    unfolding content_def
    by (simp add: buildHelix_count[where a=True and b=True and c=True])
  have 2: "length (filter (has_color 0x007bff) (children (buildHelix r h n v))) =
           length (filter (has_color 0x007bff) (children v)) + 2 * (n + 1)" for r h n v
    by (simp add: buildHelix_count[where a=True and b=False and c=False])
  have 3: "length (filter (has_color 0x800080) (children (buildHelix r h n v))) =
           length (filter (has_color 0x800080) (children v)) + n" for r h n v
    by (simp add: buildHelix_count[where a=False and b=True and c=False])
  have 4: "length (filter (has_color 0xffa500) (children (buildHelix r h n v))) =
           length (filter (has_color 0xffa500) (children v)) + 1" for r h n v
    by (simp add: buildHelix_count[where a=False and b=False and c=True])
  have 5: "length (content (setStructureType js ''dna'' w)) = 93"
    by (simp add: setStructureType_dna 1) (simp add: content_def ambientLight_def directionalLight_def)
  show ?thesis using 1 2 3 4 5 by simp
qed

theorem helix_node_count_witness:
  "(1::nat) \<le> 30 \<and> length (content (buildHelix 1 4 30 mounted)) = 93
     \<and> length (filter (has_color 0x007bff) (children (buildHelix 1 4 30 mounted))) = 62
     \<and> length (filter (has_color 0x800080) (children (buildHelix 1 4 30 mounted))) = 30
     \<and> length (filter (has_color 0xffa500) (children (buildHelix 1 4 30 mounted))) = 1"
  using helix_node_count[of 30 1 4 mounted]
  by (simp add: content_mounted)
     (simp add: mounted_def add_lighting_eq ambientLight_def directionalLight_def)

text \<open>
  C3. For every cell count the organoid builder adds exactly one core sphere, one outer
  translucent sphere and \<open>cellCount\<close> cell spheres, \<open>cellCount + 2\<close> content nodes in all,
  whatever the random draws; with the 50 cells of the source a switch to \<^verbatim>\<open>organoid\<close>
  leaves exactly 52 content nodes.
\<close>

theorem organoid_node_count:
  "length (content (buildOrganoid js cellCount w)) = length (content w) + (cellCount + 2)
   \<and> length (filter (has_color 0xff6347) (children (buildOrganoid js cellCount w))) =
       length (filter (has_color 0xff6347) (children w)) + 1
   \<and> length (filter (has_color 0x4682b4) (children (buildOrganoid js cellCount w))) =
       length (filter (has_color 0x4682b4) (children w)) + 1
   \<and> length (filter (has_color 0x90ee90) (children (buildOrganoid js cellCount w))) =
       length (filter (has_color 0x90ee90) (children w)) + cellCount
   \<and> length (content (setStructureType js ''organoid'' w)) = 52"
proof -
  have 1: "length (content (buildOrganoid js c v)) = length (content v) + (c + 2)" for c v
    by (simp add: content_def buildOrganoid_eq filter_map comp_def)
  have 5: "length (content (setStructureType js ''organoid'' w)) = 52"
    by (simp add: setStructureType_organoid 1) (simp add: content_def ambientLight_def directionalLight_def)
  show ?thesis using 1 5 by (simp add: buildOrganoid_eq filter_map comp_def)
qed

text \<open>
  C8. For every type other than \<^verbatim>\<open>dna\<close> and \<^verbatim>\<open>organoid\<close> the effect, run on a scene that
  exists, returns a scene (there is no failure) whose children are exactly the ambient and
  the directional light, with no content node.
\<close>

theorem unknown_type_lighting_only:
  assumes "type \<noteq> ''dna''" and "type \<noteq> ''organoid''"
  shows "\<exists>w'. type_effect js type (Some w) = Some w'
            \<and> children w' = [ambientLight, directionalLight] \<and> content w' = []"
  using assms by (simp add: type_effect_def setStructureType_other content_def)

theorem unknown_type_lighting_only_witness:
  "''protein'' \<noteq> ''dna'' \<and> ''protein'' \<noteq> ''organoid''
   \<and> (\<exists>w'. type_effect (correctly_rounded (\<lambda>k. 0)) ''protein'' (Some (setStructureType (correctly_rounded (\<lambda>k. 0)) ''dna'' mounted)) = Some w'
            \<and> children w' = [ambientLight, directionalLight] \<and> content w' = [])"
  using unknown_type_lighting_only[of "''protein''" "correctly_rounded (\<lambda>k. 0)" "setStructureType (correctly_rounded (\<lambda>k. 0)) ''dna'' mounted"]
  by simp

text \<open>
  C9. After a switch to any type, from any scene, the scene holds exactly one ambient and
  one directional light, as its first two children, and its children are those the same
  switch gives from a scene without children: nothing of the old content remains.
\<close>

theorem lighting_after_every_switch:
  "filter (\<lambda>object. \<not> isMesh object) (children (setStructureType js type w)) =
     [ambientLight, directionalLight]
   \<and> take 2 (children (setStructureType js type w)) = [ambientLight, directionalLight]
   \<and> children (setStructureType js type w) =
       children (setStructureType js type (w\<lparr>children := []\<rparr>))"
proof -
  obtain ns where ns: "children (setStructureType js type w) = ambientLight # directionalLight # ns"
    "list_all isMesh ns"
    using setStructureType_lights by blast
  have "filter (\<lambda>object. \<not> isMesh object) ns = []"
    using ns(2) by (simp add: list_all_iff)
  then show ?thesis
    using ns(1) setStructureType_old_children[of js type w] by simp
qed

text \<open>
  C5. Running the switch to \<^verbatim>\<open>dna\<close> twice in a row leaves as many content nodes (93) and
  as many children as running it once, and the second run disposes every resource of the
  nodes the first run built.
\<close>

theorem dna_twice_same_count:
  "length (content (setStructureType js ''dna'' (setStructureType js ''dna'' w))) =
     length (content (setStructureType js ''dna'' w))
   \<and> length (children (setStructureType js ''dna'' (setStructureType js ''dna'' w))) =
     length (children (setStructureType js ''dna'' w))
   \<and> length (content (setStructureType js ''dna'' (setStructureType js ''dna'' w))) = 93
   \<and> set (concat (map disposals (children (setStructureType js ''dna'' w))))
       \<subseteq> set (disposed (setStructureType js ''dna'' (setStructureType js ''dna'' w)))"
proof -
  have len: "length (children (setStructureType js ''dna'' v)) = 95" for v
    by (simp add: setStructureType_dna length_as_sum[of "children (buildHelix 1 4 30 _)"]
          buildHelix_sum[where a=1 and b=1 and c=1])
  show ?thesis
    by (simp add: content_dna len setStructureType_disposed[of js "''dna''" "setStructureType js ''dna'' w"])
qed

text \<open>
  C4. Switching to \<^verbatim>\<open>dna\<close>, then to \<^verbatim>\<open>organoid\<close>, then back to \<^verbatim>\<open>dna\<close> gives a scene whose
  children are, up to the identities of the resources allocated, those of one \<^verbatim>\<open>dna\<close>
  build on the mounted scene: the same 93 content nodes at the same positions with the
  same rotations, and no mesh in an organoid colour.
\<close>

theorem dna_organoid_dna_round_trip:
  "map erase_ids (children (setStructureType js ''dna''
      (setStructureType js ''organoid'' (setStructureType js ''dna'' w)))) =
   map erase_ids (children (setStructureType js ''dna'' mounted))
   \<and> map position (content (setStructureType js ''dna''
      (setStructureType js ''organoid'' (setStructureType js ''dna'' w)))) =
     map position (content (setStructureType js ''dna'' mounted))
   \<and> map rotation_z (content (setStructureType js ''dna''
      (setStructureType js ''organoid'' (setStructureType js ''dna'' w)))) =
     map rotation_z (content (setStructureType js ''dna'' mounted))
   \<and> length (content (setStructureType js ''dna''
      (setStructureType js ''organoid'' (setStructureType js ''dna'' w)))) = 93
   \<and> length (content (setStructureType js ''dna'' mounted)) = 93
   \<and> length (content (setStructureType js ''organoid'' (setStructureType js ''dna'' w))) = 52
   \<and> filter (has_color 0xff6347) (children (setStructureType js ''dna''
      (setStructureType js ''organoid'' (setStructureType js ''dna'' w)))) = []
   \<and> filter (has_color 0x4682b4) (children (setStructureType js ''dna''
      (setStructureType js ''organoid'' (setStructureType js ''dna'' w)))) = []
   \<and> filter (has_color 0x90ee90) (children (setStructureType js ''dna''
      (setStructureType js ''organoid'' (setStructureType js ''dna'' w)))) = []"
proof -
  let ?again = "setStructureType js ''dna''
      (setStructureType js ''organoid'' (setStructureType js ''dna'' w))"
  let ?fresh = "setStructureType js ''dna'' mounted"
  have e: "map erase_ids (children ?again) = map erase_ids (children ?fresh)"
    by (rule setStructureType_dna_erase)
  have p: "map position (content ?again) = map position (content ?fresh)"
    by (rule content_erase(1)[OF e])
  have r: "map rotation_z (content ?again) = map rotation_z (content ?fresh)"
    by (rule content_erase(2)[OF e])
  have n: "length (content ?again) = 93" "length (content ?fresh) = 93"
    by (rule content_dna)+
  have o: "length (content (setStructureType js ''organoid''
             (setStructureType js ''dna'' w))) = 52"
    by (rule content_organoid)
  have c: "filter (has_color 0xff6347) (children ?again) = []"
    "filter (has_color 0x4682b4) (children ?again) = []"
    "filter (has_color 0x90ee90) (children ?again) = []"
    by (rule setStructureType_dna_no_color; simp)+
  show ?thesis using e p r n o c by blast
qed

text \<open>
  C1, as stated, fails on the sequence \<^verbatim>\<open>dna\<close>, \<^verbatim>\<open>organoid\<close> from the mounted scene: the
  switch away from the helix calls \<^verbatim>\<open>dispose()\<close> 186 times, 62 of them on resource 0, the
  one material that all 62 backbone cylinders share, although the helix has 93 nodes made
  of 65 resources.
\<close>

theorem dispose_accounting_counterexample:
  "count_list (disposed (switches (correctly_rounded (\<lambda>k. 0)) [''dna'', ''organoid''] mounted)) 0 = 62
   \<and> length (disposed (switches (correctly_rounded (\<lambda>k. 0)) [''dna'', ''organoid''] mounted)) = 186
   \<and> length (content (switches (correctly_rounded (\<lambda>k. 0)) [''dna''] mounted)) = 93
   \<and> next_id (switches (correctly_rounded (\<lambda>k. 0)) [''dna''] mounted) = 65
   \<and> \<not> distinct (disposed (switches (correctly_rounded (\<lambda>k. 0)) [''dna'', ''organoid''] mounted))"
proof -
  let ?log = "disposed (switches (correctly_rounded (\<lambda>k. 0)) [''dna'', ''organoid''] mounted)"
  have c: "count_list ?log 0 = 62"
    by (simp only: disposed_dna_organoid shared_material_disposals)
  have l: "length ?log = 186"
    using switches_disposed_length[of "correctly_rounded (\<lambda>k. 0)" "[''dna'']" "''organoid''" mounted]
    by (simp add: nodes_built_def)
  have n: "length (content (switches (correctly_rounded (\<lambda>k. 0)) [''dna''] mounted)) = 93"
    by (simp add: switches_def content_dna)
  have a: "next_id (switches (correctly_rounded (\<lambda>k. 0)) [''dna''] mounted) = 65"
    by (simp add: switches_def mounted_dna_fields)
  have d: "\<not> distinct ?log"
  proof
    assume "distinct ?log"
    then have "count_list ?log 0 \<le> 1"
      by (rule distinct_count_list_le)
    with c show False by simp
  qed
  show ?thesis using c l n a d by blast
qed

text \<open>
  C1, amended. A switch calls \<^verbatim>\<open>dispose()\<close> exactly on the geometry and then on the material
  (every element of a material array) of each mesh it removes, once for each mesh, in
  scene order, and on nothing else; the builders dispose nothing. A switch to a type
  builds \<open>nodes_built\<close> meshes with one geometry and one material each, so over a sequence
  of switches the number of calls is twice the number of nodes built by all but the last
  switch, on top of the calls for what the scene held at the start.
\<close>

theorem dispose_accounting:
  "disposed (setStructureType js type w) = disposed w @ concat (map disposals (children w))
   \<and> length (content (setStructureType js type w)) = nodes_built type
   \<and> length (disposed (switches js (types @ [type]) w)) =
       length (disposed w) + length (concat (map disposals (children w)))
         + 2 * sum_list (map nodes_built types)
   \<and> length (disposed (switches js (types @ [type]) mounted)) =
       2 * sum_list (map nodes_built types)"
  using switches_disposed_length[of js types type mounted]
  by (simp add: setStructureType_disposed content_nodes_built switches_disposed_length
        del: length_concat)



text \<open>
  C10, as stated, fails. On an engine with correctly rounded sine and cosine, when the
  first three draws are 0, \<open>195 / 1024\<close> and \<open>1 - 2 ^ -53\<close>, the position stored for the
  first cell is the triple of doubles below, and its Euclidean distance from the origin is
  above 0.8.
\<close>

theorem cells_within_core_counterexample:
  "position (drop (length (children mounted) + 2)
      (children (buildOrganoid (correctly_rounded example_draws) 50 mounted)) ! 0) =
     Vec3 (8116557938675235 / 2 ^ 54) 0 (1488567692288049 / 2 ^ 51)
   \<and> 0.8 < vec_length (position (drop (length (children mounted) + 2)
      (children (buildOrganoid (correctly_rounded example_draws) 50 mounted)) ! 0))"
proof -
  have p: "position (drop (length (children mounted) + 2)
      (children (buildOrganoid (correctly_rounded example_draws) 50 mounted)) ! 0) =
     cell_position (correctly_rounded example_draws) 0 (195 / 1024) (1 - 1 / 2 ^ 53)"
    by (simp add: buildOrganoid_eq nth_map del: upt_Suc)
       (simp add: correctly_rounded_def example_draws_def)
  show ?thesis
    unfolding p example_cell using example_norm by simp
qed

text \<open>
  C10, amended. Whatever values in \<open>[0, 1)\<close> \<^verbatim>\<open>Math.random()\<close> returns, on an engine whose
  \<^verbatim>\<open>Math.sin\<close> and \<^verbatim>\<open>Math.cos\<close> are within \<open>10 ^ -6\<close> of the sine and the cosine, every cell
  the organoid builder adds (the children after the core and the outer sphere) is stored
  at Euclidean distance at most 0.8001 from the origin, hence strictly inside the core
  sphere of radius 1.0.
\<close>

theorem cells_within_core:
  assumes "\<forall>k. 0 \<le> random js k \<and> random js k < 1"
      and "\<forall>t. \<bar>Math_sin js t - sin t\<bar> \<le> 1 / 10 ^ 6"
      and "\<forall>t. \<bar>Math_cos js t - cos t\<bar> \<le> 1 / 10 ^ 6"
  shows "\<forall>cell \<in> set (drop (length (children w) + 2) (children (buildOrganoid js cellCount w))).
           vec_length (position cell) \<le> 0.8001 \<and> vec_length (position cell) < 1.0"
proof -
  have b: "vec_length (cell_position js (random js a) (random js b) (random js c)) \<le> 8001 / 10 ^ 4"
    for a b c
    using assms(1)[rule_format, of c] by (intro cell_position_bound assms(2,3)) simp_all
  then have "vec_length (cell_position js (random js a) (random js b) (random js c)) \<le> 0.8001
      \<and> vec_length (cell_position js (random js a) (random js b) (random js c)) < 1.0"
    for a b c
  proof -
    have 1: "vec_length (cell_position js (random js a) (random js b) (random js c))
        \<le> 8001 / 10000"
      using b[of a b c] by simp
    then have "vec_length (cell_position js (random js a) (random js b) (random js c)) < 1"
      by linarith
    with 1 show ?thesis by simp
  qed
  then show ?thesis
    by (auto simp: buildOrganoid_eq)
qed

theorem cells_within_core_witness:
  "vec_length (position (drop (length (children mounted) + 2)
      (children (buildOrganoid (correctly_rounded example_draws) 50 mounted)) ! 0)) \<le> 0.8001
   \<and> vec_length (position (drop (length (children mounted) + 2)
      (children (buildOrganoid (correctly_rounded example_draws) 50 mounted)) ! 0)) < 1.0"
proof -
  let ?js = "correctly_rounded example_draws"
  let ?cs = "drop (length (children mounted) + 2) (children (buildOrganoid ?js 50 mounted))"
  have mem: "?cs ! 0 \<in> set ?cs"
    by (rule nth_mem) (simp add: buildOrganoid_eq)
  have r: "\<forall>k. 0 \<le> random ?js k \<and> random ?js k < 1"
    using example_draws_range by (simp add: correctly_rounded_def)
  have s: "\<forall>t. \<bar>Math_sin ?js t - sin t\<bar> \<le> 1 / 10 ^ 6"
    and c: "\<forall>t. \<bar>Math_cos ?js t - cos t\<bar> \<le> 1 / 10 ^ 6"
    using correctly_rounded_accurate by blast+
  show ?thesis
    using cells_within_core[OF r s c, THEN bspec, OF mem] by blast
qed

text \<open>
  C7, as stated, fails at \<^verbatim>\<open>resize(0,0)\<close> on a viewport mounted at 800 by 600: the handler
  has no test on the dimensions, so the aspect ratio becomes \<^verbatim>\<open>0/0 = NaN\<close> and the
  rendering surface becomes 0 by 0, where they were 4/3 and 800 by 600.
\<close>

theorem resize_zero_counterexample:
  "cameraRef (resize 0 0 (initialize 800 600)) = Some \<lparr>aspect = NaN\<rparr>
   \<and> rendererRef (resize 0 0 (initialize 800 600)) = Some \<lparr>size = (0, 0)\<rparr>
   \<and> cameraRef (initialize 800 600) = Some \<lparr>aspect = Finite (4 / 3)\<rparr>
   \<and> rendererRef (initialize 800 600) = Some \<lparr>size = (800, 600)\<rparr>"
  by (simp add: resize_def onWindowResize_def initialize_def js_div_def)

text \<open>
  C7, amended. Every resize call on a viewport whose camera and renderer exist sets the
  camera aspect ratio to the JavaScript quotient of the new width and height and the
  rendering surface to the new dimensions, and raises no error; a call with unchanged
  dimensions therefore leaves both as they were.
\<close>

theorem resize_sets_aspect_and_size:
  assumes "cameraRef v = Some cam" and "rendererRef v = Some ren"
  shows "cameraRef (resize newWidth newHeight v) = Some (cam\<lparr>aspect := js_div newWidth newHeight\<rparr>)
       \<and> rendererRef (resize newWidth newHeight v) = Some (ren\<lparr>size := (newWidth, newHeight)\<rparr>)
       \<and> resize newWidth newHeight (resize newWidth newHeight v) = resize newWidth newHeight v
       \<and> resize newWidth newHeight (initialize newWidth newHeight) = initialize newWidth newHeight"
  using assms
  by (simp add: resize_idem) (simp add: resize_def onWindowResize_def initialize_def)

theorem resize_sets_aspect_and_size_witness:
  "cameraRef (initialize 1024 768) = Some \<lparr>aspect = Finite (4 / 3)\<rparr>
   \<and> rendererRef (initialize 1024 768) = Some \<lparr>size = (1024, 768)\<rparr>
   \<and> cameraRef (resize 800 600 (initialize 1024 768)) = Some \<lparr>aspect = Finite (4 / 3)\<rparr>
   \<and> rendererRef (resize 800 600 (initialize 1024 768)) = Some \<lparr>size = (800, 600)\<rparr>
   \<and> resize 800 600 (resize 800 600 (initialize 1024 768)) = resize 800 600 (initialize 1024 768)"
proof -
  have c: "cameraRef (initialize 1024 768) = Some \<lparr>aspect = Finite (4 / 3)\<rparr>"
    by (simp add: initialize_def js_div_def)
  have r: "rendererRef (initialize 1024 768) = Some \<lparr>size = (1024, 768)\<rparr>"
    by (simp add: initialize_def)
  show ?thesis
    using c r resize_sets_aspect_and_size[OF c r, of 800 600]
    by (simp add: js_div_def)
qed

end
